theory Spec2Isabelle
  imports Complex_Main "HOL-Library.Word" "HOL-Library.Log_Nat"
begin

unbundle bit_operations_syntax

section \<open>The image-to-grid conversion of App.jsx\<close>

text \<open>
  The component \<open>CrochetPatternGenerator\<close> keeps its settings in React state and
  recomputes the stitch grid in \<open>generatePattern\<close>. The embedding follows that function
  and its helpers statement by statement.

  A JavaScript number is an IEEE 754 double. It is modelled by the real number it
  denotes, and every arithmetic operation of the source by the exact operation followed
  by \<open>fl\<close>, the rounding to the nearest double (53 significant bits, ties to the even
  significand, gradual underflow below \<open>2\<^sup>-\<^sup>1\<^sup>0\<^sup>2\<^sup>2\<close>). A decimal literal of the source such as
  \<^verbatim>\<open>0.299\<close> is the double nearest to it, \<open>fl 0.299\<close>. Values beyond the largest finite
  double, the infinities, NaN and the sign of zero are not represented: the settings come
  from range sliders and the pixels are bytes, so the computations stay far inside the
  finite range, and no comparison of the source tells \<open>-0\<close> from \<open>0\<close>.
  Whole numbers the code only counts with (loop counters, array indices, histogram
  counts) are \<open>nat\<close> or \<open>int\<close>; they stay far below \<open>2\<^sup>5\<^sup>3\<close>, where doubles are exact.
  The cells of the result (the numbers 0 and 1) are \<open>int\<close>. Arrays are lists; the
  canvas buffer is a list of bytes. The buffer read from the canvas holds four entries
  per cell of the \<open>gridWidth\<close> by \<open>gridHeight\<close> canvas, so the luminance array has
  \<open>gridWidth * gridHeight\<close> entries; the theorems about indexed cells assume that
  length, under which every read and write of the source is inside its array.
\<close>

subsection \<open>Double-precision arithmetic\<close>

text \<open>\<open>pow2 e\<close> is \<open>2\<^sup>e\<close> for an integer \<open>e\<close> of either sign.\<close>

definition pow2 :: "int \<Rightarrow> real" where
  "pow2 e = (if 0 \<le> e then 2 ^ nat e else 1 / 2 ^ nat (- e))"

text \<open>The binary exponent of a positive real: \<open>2\<^sup>e \<le> x < 2\<^sup>e\<^sup>+\<^sup>1\<close> for \<open>e = expo x\<close>.\<close>

definition expo :: "real \<Rightarrow> int" where
  "expo x = (if 1 \<le> x then int (floorlog 2 (nat \<lfloor>x\<rfloor>)) - 1
             else - int (floorlog 2 (nat (\<lceil>1 / x\<rceil> - 1))))"

text \<open>The nearest integer, a half going to the even neighbour.\<close>

definition roundEven :: "real \<Rightarrow> int" where
  "roundEven y =
     (let f = \<lfloor>y\<rfloor>; r = y - of_int f in
      if r < 1 / 2 then f else if 1 / 2 < r then f + 1 else if even f then f else f + 1)"

text \<open>
  The double nearest to a real. The spacing of the doubles around \<open>x\<close> is
  \<open>2\<^sup>e\<^sup>-\<^sup>5\<^sup>2\<close> with \<open>e\<close> the exponent of \<open>x\<close>, and never less than \<open>2\<^sup>-\<^sup>1\<^sup>0\<^sup>7\<^sup>4\<close>.
\<close>

definition fl :: "real \<Rightarrow> real" where
  "fl x =
     (if x = 0 then 0
      else (let e = max (expo \<bar>x\<bar>) (- 1022); u = pow2 (e - 52)
            in of_int (roundEven (x / u)) * u))"

text \<open>The operators \<^verbatim>\<open>+\<close>, \<^verbatim>\<open>-\<close>, \<^verbatim>\<open>*\<close>, \<^verbatim>\<open>/\<close> on doubles.\<close>

definition add64 :: "real \<Rightarrow> real \<Rightarrow> real" where
  "add64 x y = fl (x + y)"

definition sub64 :: "real \<Rightarrow> real \<Rightarrow> real" where
  "sub64 x y = fl (x - y)"

definition mul64 :: "real \<Rightarrow> real \<Rightarrow> real" where
  "mul64 x y = fl (x * y)"

definition div64 :: "real \<Rightarrow> real \<Rightarrow> real" where
  "div64 x y = fl (x / y)"

subsection \<open>State read by the pipeline\<close>

record params =
  gridWidth :: nat
  gridHeight :: nat
  threshold :: real
  invertColors :: bool
  algorithm :: string
  contrast :: real
  brightness :: real
  edgeSensitivity :: real
  adaptiveBlockSize :: int
  ditherStrength :: real

subsection \<open>Counting loops\<close>

text \<open>\<^verbatim>\<open>for (let i = lo; i < n; i++) body\<close>, threading the variables the body mutates.\<close>

function forLoop :: "nat \<Rightarrow> nat \<Rightarrow> (nat \<Rightarrow> 's \<Rightarrow> 's) \<Rightarrow> 's \<Rightarrow> 's" where
  "forLoop i n body s = (if i < n then forLoop (i + 1) n body (body i s) else s)"
  by pat_completeness auto
termination
  by (relation "measure (\<lambda>(i, n, body, s). n - i)") auto

declare forLoop.simps [simp del]

subsection \<open>Simple threshold, inversion and assembly\<close>

text \<open>
  \<^verbatim>\<open>default: result = gray.map(g => g < threshold ? 1 : 0);\<close>
\<close>

definition thresholdMap :: "real \<Rightarrow> real list \<Rightarrow> int list" where
  "thresholdMap t gray = map (\<lambda>g. if g < t then 1 else 0) gray"

text \<open>\<^verbatim>\<open>if (invertColors) result = result.map(v => 1 - v);\<close>\<close>

definition invertStep :: "bool \<Rightarrow> int list \<Rightarrow> int list" where
  "invertStep flip result = (if flip then map (\<lambda>v. 1 - v) result else result)"

text \<open>\<^verbatim>\<open>result.slice(a, b)\<close> for \<open>0 \<le> a \<le> b\<close>; the end is cut at the array's length.\<close>

definition slice :: "nat \<Rightarrow> nat \<Rightarrow> 'a list \<Rightarrow> 'a list" where
  "slice a b xs = take (b - a) (drop a xs)"

text \<open>
  \<^verbatim>\<open>for (let y = 0; y < gridHeight; y++)
    pat.push(result.slice(y * gridWidth, (y + 1) * gridWidth));\<close>
\<close>

definition assemble :: "nat \<Rightarrow> nat \<Rightarrow> int list \<Rightarrow> int list list" where
  "assemble W H result =
     forLoop 0 H (\<lambda>y pat. pat @ [slice (y * W) ((y + 1) * W) result]) []"

subsection \<open>Tone adjustment and luminance\<close>

text \<open>
  The buffer \<open>applyContrastBrightness\<close> works on is \<^verbatim>\<open>imageData.data\<close>, the canvas's
  \<open>Uint8ClampedArray\<close>: its entries are bytes, and storing a number clamps it to
  \<open>[0, 255]\<close> and rounds it to the nearest integer, halves to the even one.
\<close>

definition toUint8Clamp :: "real \<Rightarrow> 8 word" where
  "toUint8Clamp x = word_of_int (roundEven (min 255 (max 0 x)))"

definition byteValue :: "8 word \<Rightarrow> real" where
  "byteValue w = real (unat w)"

text \<open>
  \<^verbatim>\<open>Math.min(255, Math.max(0, (data[i] - 128) * c + 128 + b))\<close>, the expression
  \<open>applyContrastBrightness\<close> evaluates for each colour channel.
\<close>

definition toneChannel :: "real \<Rightarrow> real \<Rightarrow> 8 word \<Rightarrow> real" where
  "toneChannel c b v =
     min 255 (max 0 (add64 (add64 (mul64 (sub64 (byteValue v) 128) c) 128) b))"

text \<open>
  \<^verbatim>\<open>for (let i = 0; i < data.length; i += 4) {
    data[i] = ...; data[i+1] = ...; data[i+2] = ...; }\<close>
  The buffer is updated in place; entry \<open>i + 3\<close> (alpha) is not touched.
\<close>

function toneLoop :: "real \<Rightarrow> real \<Rightarrow> nat \<Rightarrow> 8 word list \<Rightarrow> 8 word list" where
  "toneLoop c b i data =
     (if i < length data then
        (let d1 = data[i := toUint8Clamp (toneChannel c b (data ! i))];
             d2 = d1[i + 1 := toUint8Clamp (toneChannel c b (d1 ! (i + 1)))];
             d3 = d2[i + 2 := toUint8Clamp (toneChannel c b (d2 ! (i + 2)))]
         in toneLoop c b (i + 4) d3)
      else data)"
  by pat_completeness auto
termination
  by (relation "measure (\<lambda>(c, b, i, data). length data - i)") auto

declare toneLoop.simps [simp del]

text \<open>
  \<^verbatim>\<open>const c = contrast / 100; const b = (brightness - 100) * 2.55;\<close>
\<close>

definition applyContrastBrightness :: "real \<Rightarrow> real \<Rightarrow> 8 word list \<Rightarrow> 8 word list" where
  "applyContrastBrightness con bri data =
     (let c = div64 con 100; b = mul64 (sub64 bri 100) (fl 2.55) in toneLoop c b 0 data)"

text \<open>\<^verbatim>\<open>0.299 * data[i] + 0.587 * data[i+1] + 0.114 * data[i+2]\<close>\<close>

definition getGrayscale :: "8 word list \<Rightarrow> nat \<Rightarrow> real" where
  "getGrayscale data i =
     add64 (add64 (mul64 (fl 0.299) (byteValue (data ! i)))
                  (mul64 (fl 0.587) (byteValue (data ! (i + 1)))))
           (mul64 (fl 0.114) (byteValue (data ! (i + 2))))"

text \<open>
  \<^verbatim>\<open>for (let i = 0; i < data.length; i += 4) gray.push(getGrayscale(data, i));\<close>
\<close>

function grayLoop :: "8 word list \<Rightarrow> nat \<Rightarrow> real list \<Rightarrow> real list" where
  "grayLoop data i gray =
     (if i < length data then grayLoop data (i + 4) (gray @ [getGrayscale data i]) else gray)"
  by pat_completeness auto
termination
  by (relation "measure (\<lambda>(data, i, gray). length data - i)") auto

declare grayLoop.simps [simp del]

subsection \<open>Automatic threshold\<close>

text \<open>
  \<^verbatim>\<open>Math.round\<close> gives the integer nearest to its argument, halves upwards; it is
  exact.
\<close>

definition mathRound :: "real \<Rightarrow> int" where
  "mathRound v = \<lfloor>v + 1 / 2\<rfloor>"

text \<open>
  \<^verbatim>\<open>hist[Math.round(v)]++\<close>. An index outside the 256 bins would create a property
  beside them and leave the bins as they are. The bins, \<open>wB\<close>, \<open>sumB\<close>, \<open>sum\<close> and
  \<open>total\<close> hold counts and sums of at most 255 times the array length, far below
  \<open>2\<^sup>5\<^sup>3\<close>, where doubles are exact on integers: they are natural numbers here.
\<close>

definition histBump :: "nat list \<Rightarrow> real \<Rightarrow> nat list" where
  "histBump hist v =
     (let k = mathRound v in
      if 0 \<le> k \<and> k < int (length hist) then hist[nat k := hist ! nat k + 1] else hist)"

definition histogram :: "real list \<Rightarrow> nat list" where
  "histogram grayscaleArr = foldl histBump (replicate 256 0) grayscaleArr"

text \<open>
  \<^verbatim>\<open>const mB = sumB / wB;
  const mF = (sum - sumB) / wF;
  const between = wB * wF * (mB - mF) * (mB - mF);\<close>
\<close>

definition betweenOf :: "nat \<Rightarrow> int \<Rightarrow> nat \<Rightarrow> nat \<Rightarrow> real" where
  "betweenOf wB wF sumB sum0 =
     (let mB = div64 (real sumB) (real wB);
          mF = div64 (of_int (int sum0 - int sumB)) (of_int wF)
      in mul64 (mul64 (mul64 (real wB) (of_int wF)) (sub64 mB mF)) (sub64 mB mF))"

text \<open>
  The scan of \<open>otsuThreshold\<close>, with its \<^verbatim>\<open>continue\<close> (nothing counted yet) and its
  \<^verbatim>\<open>break\<close> (nothing left for the foreground):
  \<^verbatim>\<open>for (let i = 0; i < 256; i++) {
    wB += hist[i];
    if (wB === 0) continue;
    const wF = total - wB;
    if (wF === 0) break;
    sumB += i * hist[i];
    ...
    if (between > max) { max = between; thresh = i; }
  }
  return thresh;\<close>
\<close>

function otsuLoop ::
  "nat list \<Rightarrow> nat \<Rightarrow> nat \<Rightarrow> nat \<Rightarrow> nat \<Rightarrow> nat \<Rightarrow> real \<Rightarrow> nat \<Rightarrow> nat" where
  "otsuLoop hist total0 sum0 i sumB wB mx thresh =
     (if i < 256 then
        (let wB' = wB + hist ! i in
         if wB' = 0 then otsuLoop hist total0 sum0 (i + 1) sumB wB' mx thresh
         else
           (let wF = int total0 - int wB' in
            if wF = 0 then thresh
            else
              (let sumB' = sumB + i * hist ! i;
                   between = betweenOf wB' wF sumB' sum0
               in if between > mx
                  then otsuLoop hist total0 sum0 (i + 1) sumB' wB' between i
                  else otsuLoop hist total0 sum0 (i + 1) sumB' wB' mx thresh)))
      else thresh)"
  by pat_completeness auto
termination
  by (relation "measure (\<lambda>(hist, total0, sum0, i, sumB, wB, mx, thresh). 256 - i)") auto

declare otsuLoop.simps [simp del]

text \<open>
  \<^verbatim>\<open>const total = grayscaleArr.length;
  let sum = 0;
  for (let i = 0; i < 256; i++) sum += i * hist[i];
  let sumB = 0, wB = 0, max = 0, thresh = 0;\<close>
  (\<open>total0\<close>, \<open>sum0\<close> and \<open>mx\<close> stand for the source's \<open>total\<close>, \<open>sum\<close> and \<open>max\<close>.)
\<close>

definition otsuThreshold :: "real list \<Rightarrow> nat" where
  "otsuThreshold grayscaleArr =
     (let hist = histogram grayscaleArr;
          total0 = length grayscaleArr;
          sum0 = forLoop 0 256 (\<lambda>i s. s + i * hist ! i) 0
      in otsuLoop hist total0 sum0 0 0 0 0 0)"

subsection \<open>Error-diffusion dithering\<close>

text \<open>
  One pass of the body of the Floyd-Steinberg loops at cell \<open>(x, y)\<close>; the state is the
  error buffer \<open>err\<close> and the \<open>result\<close> array built so far.
  \<^verbatim>\<open>const idx = y * gridWidth + x;
  const old = err[idx];
  const newVal = old < threshold ? 0 : 255;
  result.push(newVal === 0 ? 1 : 0);
  const quant = (old - newVal) * strength;
  if (x + 1 < gridWidth) err[idx + 1] += quant * 7/16;
  if (y + 1 < gridHeight) {
    if (x > 0) err[idx + gridWidth - 1] += quant * 3/16;
    err[idx + gridWidth] += quant * 5/16;
    if (x + 1 < gridWidth) err[idx + gridWidth + 1] += quant * 1/16;
  }\<close>
  \<^verbatim>\<open>quant * 7/16\<close> is \<^verbatim>\<open>(quant * 7) / 16\<close>.
\<close>

definition addAt :: "nat \<Rightarrow> real \<Rightarrow> real list \<Rightarrow> real list" where
  "addAt k q err = err[k := add64 (err ! k) q]"

definition quantize :: "real \<Rightarrow> real \<Rightarrow> real" where
  "quantize thr old = (if old < thr then 0 else 255)"

definition fsQuant :: "real \<Rightarrow> real \<Rightarrow> real \<Rightarrow> real" where
  "fsQuant thr strength old = mul64 (sub64 old (quantize thr old)) strength"

definition fsShare :: "real \<Rightarrow> real \<Rightarrow> real" where
  "fsShare quant w = div64 (mul64 quant w) 16"

definition fsCell ::
  "nat \<Rightarrow> nat \<Rightarrow> real \<Rightarrow> real \<Rightarrow> nat \<Rightarrow> nat \<Rightarrow> real list \<times> int list \<Rightarrow> real list \<times> int list" where
  "fsCell W H thr strength y x st =
     (case st of (err, result) \<Rightarrow>
        let idx = y * W + x;
            old = err ! idx;
            newVal = quantize thr old;
            result1 = result @ [if newVal = 0 then 1 else 0];
            quant = fsQuant thr strength old;
            err1 = (if x + 1 < W then addAt (idx + 1) (fsShare quant 7) err else err);
            err2 = (if y + 1 < H then
                      (let e1 = (if x > 0 then addAt (idx + W - 1) (fsShare quant 3) err1 else err1);
                           e2 = addAt (idx + W) (fsShare quant 5) e1
                       in if x + 1 < W then addAt (idx + W + 1) (fsShare quant 1) e2 else e2)
                    else err1)
        in (err2, result1))"

text \<open>
  \<^verbatim>\<open>const err = [...gray];
  for (let y = 0; y < gridHeight; y++) for (let x = 0; x < gridWidth; x++) { ... }\<close>
\<close>

definition floydSteinberg :: "nat \<Rightarrow> nat \<Rightarrow> real \<Rightarrow> real \<Rightarrow> real list \<Rightarrow> int list" where
  "floydSteinberg W H thr strength gray =
     snd (forLoop 0 H (\<lambda>y. forLoop 0 W (\<lambda>x. fsCell W H thr strength y x)) (gray, []))"

text \<open>
  The body of the Atkinson loops:
  \<^verbatim>\<open>const quant = (old - newVal) * strength / 8;
  if (x + 1 < gridWidth) err[idx + 1] += quant;
  if (x + 2 < gridWidth) err[idx + 2] += quant;
  if (y + 1 < gridHeight) {
    if (x > 0) err[idx + gridWidth - 1] += quant;
    err[idx + gridWidth] += quant;
    if (x + 1 < gridWidth) err[idx + gridWidth + 1] += quant;
  }
  if (y + 2 < gridHeight) err[idx + gridWidth * 2] += quant;\<close>
\<close>

definition atkinsonQuant :: "real \<Rightarrow> real \<Rightarrow> real \<Rightarrow> real" where
  "atkinsonQuant thr strength old = div64 (mul64 (sub64 old (quantize thr old)) strength) 8"

definition atkinsonCell ::
  "nat \<Rightarrow> nat \<Rightarrow> real \<Rightarrow> real \<Rightarrow> nat \<Rightarrow> nat \<Rightarrow> real list \<times> int list \<Rightarrow> real list \<times> int list" where
  "atkinsonCell W H thr strength y x st =
     (case st of (err, result) \<Rightarrow>
        let idx = y * W + x;
            old = err ! idx;
            newVal = quantize thr old;
            result1 = result @ [if newVal = 0 then 1 else 0];
            quant = atkinsonQuant thr strength old;
            err1 = (if x + 1 < W then addAt (idx + 1) quant err else err);
            err2 = (if x + 2 < W then addAt (idx + 2) quant err1 else err1);
            err3 = (if y + 1 < H then
                      (let e1 = (if x > 0 then addAt (idx + W - 1) quant err2 else err2);
                           e2 = addAt (idx + W) quant e1
                       in if x + 1 < W then addAt (idx + W + 1) quant e2 else e2)
                    else err2);
            err4 = (if y + 2 < H then addAt (idx + W * 2) quant err3 else err3)
        in (err4, result1))"

definition atkinson :: "nat \<Rightarrow> nat \<Rightarrow> real \<Rightarrow> real \<Rightarrow> real list \<Rightarrow> int list" where
  "atkinson W H thr strength gray =
     snd (forLoop 0 H (\<lambda>y. forLoop 0 W (\<lambda>x. atkinsonCell W H thr strength y x)) (gray, []))"

subsection \<open>Ordered dithering\<close>

definition bayer :: "real list list" where
  "bayer = [[0, 8, 2, 10], [12, 4, 14, 6], [3, 11, 1, 9], [15, 7, 13, 5]]"

text \<open>
  \<^verbatim>\<open>threshold + (bayer[y % 4][x % 4] / 16 - 0.5) * 128 * (ditherStrength / 100)\<close>
\<close>

definition orderedThreshold :: "real \<Rightarrow> real \<Rightarrow> nat \<Rightarrow> nat \<Rightarrow> real" where
  "orderedThreshold thr dither x y =
     add64 thr (mul64 (mul64 (sub64 (div64 (bayer ! (y mod 4) ! (x mod 4)) 16) 0.5) 128)
                      (div64 dither 100))"

text \<open>
  \<^verbatim>\<open>const x = i % gridWidth, y = Math.floor(i / gridWidth);
  const t = ...;
  return g < t ? 1 : 0;\<close>
\<close>

definition orderedCell :: "nat \<Rightarrow> real \<Rightarrow> real \<Rightarrow> real \<Rightarrow> nat \<Rightarrow> int" where
  "orderedCell W thr dither g i =
     (let x = i mod W; y = i div W;
          t = orderedThreshold thr dither x y
      in if g < t then 1 else 0)"

text \<open>\<^verbatim>\<open>gray.map((g, i) => ...)\<close>: the callback gets the element and its index.\<close>

definition mapIndexed :: "('a \<Rightarrow> nat \<Rightarrow> 'b) \<Rightarrow> 'a list \<Rightarrow> 'b list" where
  "mapIndexed f xs = map (\<lambda>i. f (xs ! i) i) [0..<length xs]"

definition ordered :: "nat \<Rightarrow> real \<Rightarrow> real \<Rightarrow> real list \<Rightarrow> int list" where
  "ordered W thr dither gray = mapIndexed (orderedCell W thr dither) gray"

subsection \<open>Edge detection\<close>

text \<open>
  \<^verbatim>\<open>const gx = -idx(i-gridWidth-1) + idx(i-gridWidth+1) - 2*idx(i-1) + 2*idx(i+1)
             - idx(i+gridWidth-1) + idx(i+gridWidth+1);
  const gy = -idx(i-gridWidth-1) - 2*idx(i-gridWidth) - idx(i-gridWidth+1)
             + idx(i+gridWidth-1) + 2*idx(i+gridWidth) + idx(i+gridWidth+1);\<close>
  The six terms are named by their place around the cell: \<open>nw\<close>, \<open>n\<close>, \<open>ne\<close> in the
  row above, \<open>w\<close>, \<open>e\<close> beside it, \<open>sw\<close>, \<open>s\<close>, \<open>se\<close> in the row below. The sums run
  from left to right.
\<close>

definition sobelGx :: "real \<Rightarrow> real \<Rightarrow> real \<Rightarrow> real \<Rightarrow> real \<Rightarrow> real \<Rightarrow> real" where
  "sobelGx nw ne w e sw se =
     add64 (sub64 (add64 (sub64 (add64 (- nw) ne) (mul64 2 w)) (mul64 2 e)) sw) se"

definition sobelGy :: "real \<Rightarrow> real \<Rightarrow> real \<Rightarrow> real \<Rightarrow> real \<Rightarrow> real \<Rightarrow> real" where
  "sobelGy nw n ne sw s se =
     add64 (add64 (add64 (sub64 (sub64 (- nw) (mul64 2 n)) ne) sw) (mul64 2 s)) se"

text \<open>
  \<^verbatim>\<open>Math.sqrt(gx*gx + gy*gy)\<close>; the square root is the correctly rounded one.
\<close>

definition sqrt64 :: "real \<Rightarrow> real" where
  "sqrt64 x = fl (sqrt x)"

definition sobelMagnitude :: "real \<Rightarrow> real \<Rightarrow> real" where
  "sobelMagnitude gx gy = sqrt64 (add64 (mul64 gx gx) (mul64 gy gy))"

text \<open>
  \<^verbatim>\<open>if (x === 0 || x === gridWidth-1 || y === 0 || y === gridHeight-1) {
    result.push(0); continue;
  }
  const idx = (i) => gray[i];
  const i = y * gridWidth + x;
  ...
  const mag = Math.sqrt(gx*gx + gy*gy);
  result.push(mag > sens ? 1 : 0);\<close>
  Past the border test \<open>x\<close> and \<open>y\<close> are at least 1, so the indices below \<open>i\<close> are
  not negative.
\<close>

definition sobelCell :: "nat \<Rightarrow> nat \<Rightarrow> real \<Rightarrow> real list \<Rightarrow> nat \<Rightarrow> nat \<Rightarrow> int list \<Rightarrow> int list" where
  "sobelCell W H sens gray y x result =
     (if x = 0 \<or> int x = int W - 1 \<or> y = 0 \<or> int y = int H - 1 then result @ [0]
      else
        (let i = y * W + x;
             gx = sobelGx (gray ! (i - W - 1)) (gray ! (i - W + 1)) (gray ! (i - 1)) (gray ! (i + 1))
                    (gray ! (i + W - 1)) (gray ! (i + W + 1));
             gy = sobelGy (gray ! (i - W - 1)) (gray ! (i - W)) (gray ! (i - W + 1))
                    (gray ! (i + W - 1)) (gray ! (i + W)) (gray ! (i + W + 1));
             mag = sobelMagnitude gx gy
         in result @ [if mag > sens then 1 else 0]))"

text \<open>\<^verbatim>\<open>const sens = edgeSensitivity * 2;\<close>\<close>

definition sobel :: "nat \<Rightarrow> nat \<Rightarrow> real \<Rightarrow> real list \<Rightarrow> int list" where
  "sobel W H edge gray =
     (let sens = mul64 edge 2
      in forLoop 0 H (\<lambda>y. forLoop 0 W (\<lambda>x. sobelCell W H sens gray y x)) [])"

subsection \<open>Adaptive threshold\<close>

text \<open>\<^verbatim>\<open>for (let d = lo; d <= hi; d++) body\<close> over signed offsets.\<close>

function forRange :: "int \<Rightarrow> int \<Rightarrow> (int \<Rightarrow> 's \<Rightarrow> 's) \<Rightarrow> 's \<Rightarrow> 's" where
  "forRange d hi body s = (if d \<le> hi then forRange (d + 1) hi body (body d s) else s)"
  by pat_completeness auto
termination
  by (relation "measure (\<lambda>(d, hi, body, s). nat (hi + 1 - d))") auto

declare forRange.simps [simp del]

text \<open>
  \<^verbatim>\<open>const bs = Math.max(3, adaptiveBlockSize | 1);\<close>
  The operator \<^verbatim>\<open>|\<close> works on the 32-bit two's complement value of its operands.
\<close>

definition blockSize :: "int \<Rightarrow> int" where
  "blockSize n = max 3 (sint ((word_of_int n :: 32 word) OR 1))"

text \<open>
  \<^verbatim>\<open>const ny = y + dy, nx = x + dx;
  if (ny >= 0 && ny < gridHeight && nx >= 0 && nx < gridWidth) {
    sum += gray[ny * gridWidth + nx];
    count++;
  }\<close>
  \<open>count\<close> is a small whole number, kept as a natural number.
\<close>

definition adaptiveSample ::
  "nat \<Rightarrow> nat \<Rightarrow> real list \<Rightarrow> nat \<Rightarrow> nat \<Rightarrow> int \<Rightarrow> int \<Rightarrow> real \<times> nat \<Rightarrow> real \<times> nat" where
  "adaptiveSample W H gray y x dy dx acc =
     (case acc of (sum0, count) \<Rightarrow>
        let ny = int y + dy; nx = int x + dx in
        if ny \<ge> 0 \<and> ny < int H \<and> nx \<ge> 0 \<and> nx < int W
        then (add64 sum0 (gray ! nat (ny * int W + nx)), count + 1)
        else (sum0, count))"

text \<open>
  \<^verbatim>\<open>let sum = 0, count = 0;
  for (let dy = -half; dy <= half; dy++)
    for (let dx = -half; dx <= half; dx++) { ... }
  const localMean = sum / count;
  const idx = y * gridWidth + x;
  result.push(gray[idx] < localMean - (threshold - 128) / 4 ? 1 : 0);\<close>
\<close>

definition adaptiveCell ::
  "nat \<Rightarrow> nat \<Rightarrow> real \<Rightarrow> int \<Rightarrow> real list \<Rightarrow> nat \<Rightarrow> nat \<Rightarrow> int list \<Rightarrow> int list" where
  "adaptiveCell W H thr half gray y x result =
     (case forRange (- half) half
             (\<lambda>dy. forRange (- half) half (\<lambda>dx. adaptiveSample W H gray y x dy dx)) (0, 0) of
        (sum0, count) \<Rightarrow>
          let localMean = div64 sum0 (real count);
              idx = y * W + x
          in result @ [if gray ! idx < sub64 localMean (div64 (sub64 thr 128) 4) then 1 else 0])"

text \<open>\<^verbatim>\<open>const half = Math.floor(bs / 2);\<close>\<close>

definition adaptive :: "nat \<Rightarrow> nat \<Rightarrow> real \<Rightarrow> int \<Rightarrow> real list \<Rightarrow> int list" where
  "adaptive W H thr blk gray =
     (let bs = blockSize blk;
          half = bs div 2
      in forLoop 0 H (\<lambda>y. forLoop 0 W (\<lambda>x. adaptiveCell W H thr half gray y x)) [])"

subsection \<open>The switch on the algorithm and the whole run\<close>

text \<open>
  \<^verbatim>\<open>const strength = ditherStrength / 100;
  switch (algorithm) { case 'otsu': ... case 'adaptive': ... default: ... }\<close>
  The identifier \<open>threshold\<close> of the simple algorithm has no case of its own: it is
  served by \<^verbatim>\<open>default\<close>.
\<close>

definition algorithmResult :: "params \<Rightarrow> real list \<Rightarrow> int list" where
  "algorithmResult p gray =
     (let W = gridWidth p; H = gridHeight p; strength = div64 (ditherStrength p) 100 in
      if algorithm p = ''otsu'' then
        (let t = otsuThreshold gray in thresholdMap (real t) gray)
      else if algorithm p = ''floydSteinberg'' then floydSteinberg W H (threshold p) strength gray
      else if algorithm p = ''atkinson'' then atkinson W H (threshold p) strength gray
      else if algorithm p = ''ordered'' then ordered W (threshold p) (ditherStrength p) gray
      else if algorithm p = ''sobel'' then sobel W H (edgeSensitivity p) gray
      else if algorithm p = ''adaptive'' then adaptive W H (threshold p) (adaptiveBlockSize p) gray
      else thresholdMap (threshold p) gray)"

text \<open>From the luminance array to the grid: the switch, the inversion, the rows.\<close>

definition patternOfGray :: "params \<Rightarrow> real list \<Rightarrow> int list list" where
  "patternOfGray p gray =
     assemble (gridWidth p) (gridHeight p) (invertStep (invertColors p) (algorithmResult p gray))"

text \<open>
  \<open>generatePattern\<close>. Its argument is the pixel buffer of the canvas after the cropped
  image was drawn on it (the browser's \<^verbatim>\<open>drawImage\<close> and \<^verbatim>\<open>getImageData\<close>), or
  \<open>None\<close> when no image is loaded: \<^verbatim>\<open>if (!image) return;\<close> leaves without calling
  \<open>setPattern\<close>. Otherwise the value is the grid passed to \<open>setPattern\<close>.
\<close>

definition generatePattern :: "params \<Rightarrow> 8 word list option \<Rightarrow> int list list option" where
  "generatePattern p drawn =
     (case drawn of
        None \<Rightarrow> None
      | Some pixels \<Rightarrow>
          (let data = applyContrastBrightness (contrast p) (brightness p) pixels;
               gray = grayLoop data 0 []
           in Some (patternOfGray p gray)))"

subsection \<open>CSV export\<close>

text \<open>\<^verbatim>\<open>xs.join(sep)\<close>\<close>

fun joinWith :: "string \<Rightarrow> string list \<Rightarrow> string" where
  "joinWith sep [] = []"
| "joinWith sep [x] = x"
| "joinWith sep (x # y # ys) = x @ sep @ joinWith sep (y # ys)"

text \<open>The decimal digits a template literal prints for a non-negative integer.\<close>

definition digitChar :: "nat \<Rightarrow> char" where
  "digitChar d = char_of (48 + d)"

function numberString :: "nat \<Rightarrow> string" where
  "numberString n =
     (if n < 10 then [digitChar n] else numberString (n div 10) @ [digitChar (n mod 10)])"
  by pat_completeness auto
termination
  by (relation "measure id") auto

declare numberString.simps [simp del]

text \<open>
  \<open>downloadCSV\<close>: the name and the text of the file offered for download, \<open>None\<close> when
  the function returns before building it.
  \<^verbatim>\<open>if (pattern.length === 0) return;
  const csv = pattern.map(row => row.map(c => c === 1 ? 'X' : 'O').join(',')).join('\n');
  ...
  a.download = `crochet_pattern_${gridWidth}x${gridHeight}.csv`;\<close>
\<close>

definition csvText :: "int list list \<Rightarrow> string" where
  "csvText pattern =
     joinWith [CHR 0x0A] (map (\<lambda>row. joinWith '','' (map (\<lambda>c. if c = 1 then ''X'' else ''O'') row)) pattern)"

definition downloadCSV :: "nat \<Rightarrow> nat \<Rightarrow> int list list \<Rightarrow> (string \<times> string) option" where
  "downloadCSV W H pattern =
     (if length pattern = 0 then None
      else Some (''crochet_pattern_'' @ numberString W @ ''x'' @ numberString H @ ''.csv'',
                 csvText pattern))"

subsection \<open>The settings the component starts with\<close>

text \<open>The initial values of the \<^verbatim>\<open>useState\<close> hooks that \<open>generatePattern\<close> reads.\<close>

definition initialParams :: params where
  "initialParams =
     \<lparr>gridWidth = 50, gridHeight = 50, threshold = 128, invertColors = False,
      algorithm = ''threshold'', contrast = 100, brightness = 100, edgeSensitivity = 40,
      adaptiveBlockSize = 11, ditherStrength = 100\<rparr>"

subsection \<open>Reading a decimal numeral back\<close>

text \<open>The number a string of decimal digits denotes; used to state what \<open>numberString\<close> prints.\<close>

definition digitsValue :: "string \<Rightarrow> nat" where
  "digitsValue s = foldl (\<lambda>a c. 10 * a + (of_char c - 48)) 0 s"

subsection \<open>Rounding error\<close>

text \<open>
  Half the relative spacing of the doubles, half the least spacing, and the relation
  ``\<open>a\<close> is \<open>A\<close> up to \<open>k\<close> roundings'' in which rounding errors are counted.
\<close>

definition eps64 :: real where
  "eps64 = 1 / 2 ^ 53"

definition eta64 :: real where
  "eta64 = 1 / 2 ^ 1075"

definition approx :: "nat \<Rightarrow> real \<Rightarrow> real \<Rightarrow> bool" where
  "approx k a A \<longleftrightarrow> \<bar>a - A\<bar> \<le> real k * (eps64 * \<bar>A\<bar> + eta64)"

subsection \<open>Cells by column and row\<close>

text \<open>
  The grid is stored row-major, \<open>index = y * width + x\<close>. \<open>cellAt\<close> reads the cell in
  column \<open>x\<close> and row \<open>y\<close> of a flat field.
\<close>

definition cellAt :: "nat \<Rightarrow> real list \<Rightarrow> nat \<Rightarrow> nat \<Rightarrow> real" where
  "cellAt W field x y = field ! (y * W + x)"

subsection \<open>The scan after a number of cells\<close>

text \<open>
  The state after the body of a pair of nested loops (rows outside, columns inside, grid
  width \<open>W\<close>) has run on the first \<open>k\<close> cells in row-major order, cell number \<open>j\<close>
  being column \<open>j mod W\<close> of row \<open>j div W\<close>. It names the contents of the error buffer
  at the moment a cell is reached.
\<close>

definition scanCells :: "nat \<Rightarrow> (nat \<Rightarrow> nat \<Rightarrow> 's \<Rightarrow> 's) \<Rightarrow> nat \<Rightarrow> 's \<Rightarrow> 's" where
  "scanCells W body k s = fold (\<lambda>j. body (j div W) (j mod W)) [0..<k] s"

subsection \<open>The Sobel kernels in exact arithmetic\<close>




subsection \<open>The clipped square neighbourhood and its mean\<close>

text \<open>
  The cells of the grid that lie in the square of side \<open>side\<close> centred on column \<open>x\<close>,
  row \<open>y\<close>: those at most \<open>side / 2\<close> away in each direction. Nothing wraps around or is
  mirrored.
\<close>

definition neighbourhood :: "nat \<Rightarrow> nat \<Rightarrow> int \<Rightarrow> nat \<Rightarrow> nat \<Rightarrow> (nat \<times> nat) set" where
  "neighbourhood W H side x y =
     {(nx, ny) \<in> {0..<W} \<times> {0..<H}.
        2 * \<bar>int nx - int x\<bar> < side \<and> 2 * \<bar>int ny - int y\<bar> < side}"

text \<open>
  The same cells as a list, rows from top to bottom and each row from left to right:
  the order in which the sum of their luminances is accumulated.
\<close>

definition window :: "nat \<Rightarrow> nat \<Rightarrow> int \<Rightarrow> nat \<Rightarrow> nat \<Rightarrow> (nat \<times> nat) list" where
  "window W H half x y =
     concat (map (\<lambda>ny. map (\<lambda>nx. (nat nx, nat ny))
                        (filter (\<lambda>nx. 0 \<le> nx \<and> nx < int W) (map (\<lambda>dx. int x + dx) [- half..half])))
                 (filter (\<lambda>ny. 0 \<le> ny \<and> ny < int H) (map (\<lambda>dy. int y + dy) [- half..half])))"

text \<open>
  The sum of the luminances over a list of cells, each addition rounded, from 0 on;
  the mean in doubles; and the mean in exact arithmetic.
\<close>

definition localSum :: "nat \<Rightarrow> real list \<Rightarrow> (nat \<times> nat) list \<Rightarrow> real" where
  "localSum W field cells = foldl (\<lambda>s c. add64 s (cellAt W field (fst c) (snd c))) 0 cells"

definition localMean :: "nat \<Rightarrow> nat \<Rightarrow> int \<Rightarrow> real list \<Rightarrow> nat \<Rightarrow> nat \<Rightarrow> real" where
  "localMean W H half field x y =
     div64 (localSum W field (window W H half x y)) (real (length (window W H half x y)))"

definition exactMean :: "nat \<Rightarrow> nat \<Rightarrow> int \<Rightarrow> real list \<Rightarrow> nat \<Rightarrow> nat \<Rightarrow> real" where
  "exactMean W H half field x y =
     sum_list (map (\<lambda>c. cellAt W field (fst c) (snd c)) (window W H half x y))
       / real (length (window W H half x y))"

subsection \<open>Between-class variance of a split\<close>

text \<open>
  What the automatic threshold maximises. \<open>binCount\<close> is the number of luminance values
  that round to bin \<open>k\<close>. For a split \<open>t\<close> the background is the bins up to \<open>t\<close>, the
  foreground the bins above \<open>t\<close> up to 255; \<open>weightB\<close>, \<open>weightF\<close> are their weights,
  \<open>momentB\<close>, \<open>momentF\<close> the sums of their bin values, \<open>meanB\<close>, \<open>meanF\<close> the rounded
  quotients, and \<open>betweenVar\<close> is \<open>wB * wF * (mB - mF) * (mB - mF)\<close>, multiplied from
  left to right with every product rounded. A split that leaves a class empty does not
  compete: its variance counts as 0.
\<close>

definition binCount :: "real list \<Rightarrow> nat \<Rightarrow> nat" where
  "binCount field k = length (filter (\<lambda>v. mathRound v = int k) field)"

definition weightB :: "real list \<Rightarrow> nat \<Rightarrow> nat" where
  "weightB field t = (\<Sum>k\<le>t. binCount field k)"

definition weightF :: "real list \<Rightarrow> nat \<Rightarrow> nat" where
  "weightF field t = (\<Sum>k\<in>{t<..255}. binCount field k)"

definition momentB :: "real list \<Rightarrow> nat \<Rightarrow> nat" where
  "momentB field t = (\<Sum>k\<le>t. k * binCount field k)"

definition momentF :: "real list \<Rightarrow> nat \<Rightarrow> nat" where
  "momentF field t = (\<Sum>k\<in>{t<..255}. k * binCount field k)"

definition meanB :: "real list \<Rightarrow> nat \<Rightarrow> real" where
  "meanB field t = div64 (real (momentB field t)) (real (weightB field t))"

definition meanF :: "real list \<Rightarrow> nat \<Rightarrow> real" where
  "meanF field t = div64 (real (momentF field t)) (real (weightF field t))"

definition betweenVar :: "real list \<Rightarrow> nat \<Rightarrow> real" where
  "betweenVar field t =
     (if weightB field t = 0 \<or> weightF field t = 0 then 0
      else mul64 (mul64 (mul64 (real (weightB field t)) (real (weightF field t)))
                        (sub64 (meanB field t) (meanF field t)))
                 (sub64 (meanB field t) (meanF field t)))"

text \<open>The variance of a split in exact arithmetic, \<open>wB * wF * (mB - mF)\<^sup>2\<close>.\<close>

definition exactVar :: "real list \<Rightarrow> nat \<Rightarrow> real" where
  "exactVar field t =
     real (weightB field t) * real (weightF field t)
       * (real (momentB field t) / real (weightB field t)
          - real (momentF field t) / real (weightF field t))\<^sup>2"

text \<open>
  The same quantities read off a histogram array, as the scan of \<open>otsuThreshold\<close> holds
  them after bin \<open>t\<close>: the running \<open>wB\<close> and \<open>sumB\<close>, and \<open>between\<close>.
\<close>

definition histWeight :: "nat list \<Rightarrow> nat \<Rightarrow> nat" where
  "histWeight hist i = (\<Sum>k<i. hist ! k)"

definition histMoment :: "nat list \<Rightarrow> nat \<Rightarrow> nat" where
  "histMoment hist i = (\<Sum>k<i. k * hist ! k)"

definition histBetween :: "nat list \<Rightarrow> nat \<Rightarrow> nat \<Rightarrow> real" where
  "histBetween hist total0 t =
     (if histWeight hist (t + 1) = 0 \<or> int total0 - int (histWeight hist (t + 1)) = 0 then 0
      else betweenOf (histWeight hist (t + 1)) (int total0 - int (histWeight hist (t + 1)))
             (histMoment hist (t + 1)) (histMoment hist 256))"

section \<open>Properties\<close>

subsection \<open>Rounding to double precision\<close>

lemma pow2_powr: "pow2 e = 2 powr (of_int e)"
proof (cases "0 \<le> e")
  case True
  then have "(2::real) powr of_int e = 2 powr real (nat e)" by simp
  also have "\<dots> = 2 ^ nat e" by (rule powr_realpow) simp
  finally show ?thesis using True by (simp add: pow2_def)
next
  case False
  then have "(2::real) powr of_int e = 2 powr (- real (nat (- e)))" by simp
  also have "\<dots> = 1 / 2 powr real (nat (- e))" by (simp add: powr_minus divide_inverse)
  also have "\<dots> = 1 / 2 ^ nat (- e)" by (simp only: powr_realpow [of 2, simplified])
  finally show ?thesis using False by (simp add: pow2_def)
qed

lemma pow2_pos: "0 < pow2 e"
  by (simp add: pow2_powr)

lemma pow2_add: "pow2 (a + b) = pow2 a * pow2 b"
  by (simp add: pow2_powr powr_add)

lemma pow2_diff: "pow2 (a - b) = pow2 a / pow2 b"
  by (simp add: pow2_powr powr_diff)

lemma pow2_mono: "a \<le> b \<Longrightarrow> pow2 a \<le> pow2 b"
  by (simp add: pow2_powr)

lemma pow2_less_iff: "pow2 a < pow2 b \<longleftrightarrow> a < b"
  by (simp add: pow2_powr)

lemma pow2_nat: "pow2 (int n) = 2 ^ n"
  by (simp add: pow2_def)

lemma nat_pow2_le_real: "2 ^ j \<le> (n::nat) \<Longrightarrow> (2::real) ^ j \<le> real n"
proof -
  assume "2 ^ j \<le> n"
  then have "real (2 ^ j) \<le> real n" by (rule of_nat_mono)
  then show ?thesis by simp
qed

lemma nat_less_pow2_real: "(n::nat) < 2 ^ j \<Longrightarrow> real n + 1 \<le> (2::real) ^ j"
proof -
  assume "n < 2 ^ j"
  then have "Suc n \<le> 2 ^ j" by simp
  then have "real (Suc n) \<le> real (2 ^ j)" by (rule of_nat_mono)
  then show ?thesis by simp
qed

lemma expo_bounds_ge1:
  assumes "1 \<le> x"
  shows "pow2 (expo x) \<le> x \<and> x < pow2 (expo x + 1)"
proof -
  define n where "n = nat \<lfloor>x\<rfloor>"
  have fx: "1 \<le> \<lfloor>x\<rfloor>" using assms by simp
  then have n1: "0 < n" by (simp add: n_def)
  have rn: "real n = of_int \<lfloor>x\<rfloor>" using fx by (simp add: n_def)
  have nx: "real n \<le> x" unfolding rn by (rule of_int_floor_le)
  have xn: "x < real n + 1" unfolding rn by linarith
  define k where "k = floorlog 2 n"
  from floorlog_bounds [of n 2] n1
  have lo: "2 ^ (k - 1) \<le> n" and hi: "n < 2 ^ k" by (simp_all add: k_def)
  have k1: "0 < k" using hi n1 by (cases k) simp_all
  have e: "expo x = int k - 1" using assms by (simp add: expo_def n_def k_def)
  have e': "expo x = int (k - 1)" using e k1 by simp
  have p1: "pow2 (expo x) = 2 ^ (k - 1)" unfolding e' by (rule pow2_nat)
  have "expo x + 1 = int k" using e by simp
  then have p2: "pow2 (expo x + 1) = 2 ^ k" by (simp only: pow2_nat)
  have "(2::real) ^ (k - 1) \<le> x" using nat_pow2_le_real [OF lo] nx by linarith
  moreover have "x < 2 ^ k" using nat_less_pow2_real [OF hi] xn by linarith
  ultimately show ?thesis by (simp only: p1 p2)
qed

lemma expo_bounds_lt1:
  assumes "0 < x" and "x < 1"
  shows "pow2 (expo x) \<le> x \<and> x < pow2 (expo x + 1)"
proof -
  define y where "y = 1 / x"
  have y1: "1 < y" using assms by (simp add: y_def)
  have y0: "0 < y" using y1 by simp
  have xy: "x = 1 / y" by (simp add: y_def)
  define c where "c = \<lceil>y\<rceil>"
  have yc: "y \<le> of_int c" unfolding c_def by (rule le_of_int_ceiling)
  have cy: "of_int c - 1 < y" unfolding c_def using ceiling_correct [of y] by simp
  have "1 < (of_int c :: real)" using y1 yc by simp
  then have c2: "2 \<le> c" by simp
  define m where "m = nat (c - 1)"
  have m1: "0 < m" using c2 by (simp add: m_def)
  have rm: "real m = of_int c - 1" using c2 by (simp add: m_def)
  define k where "k = floorlog 2 m"
  from floorlog_bounds [of m 2] m1
  have lo: "2 ^ (k - 1) \<le> m" and hi: "m < 2 ^ k" by (simp_all add: k_def)
  have k1: "0 < k" using hi m1 by (cases k) simp_all
  have e: "expo x = - int k" using assms by (simp add: expo_def y_def c_def m_def k_def)
  have p1: "pow2 (expo x) = 1 / 2 ^ k"
    using k1 by (simp add: e pow2_def)
  have e1: "expo x + 1 = - int (k - 1)" using e k1 by simp
  have p2: "pow2 (expo x + 1) = 1 / 2 ^ (k - 1)"
  proof (cases "k = 1")
    case True
    then show ?thesis by (simp add: e1 pow2_def)
  next
    case False
    then have "\<not> 0 \<le> - int (k - 1)" using k1 by simp
    then show ?thesis unfolding e1 pow2_def by simp
  qed
  have "y \<le> 2 ^ k" using nat_less_pow2_real [OF hi] yc rm by linarith
  then have "1 / 2 ^ k \<le> 1 / y" using y0 by (intro divide_left_mono) simp_all
  then have a: "1 / 2 ^ k \<le> x" by (simp only: xy)
  have "2 ^ (k - 1) < y" using nat_pow2_le_real [OF lo] cy rm by linarith
  then have "1 / y < 1 / 2 ^ (k - 1)" using y0 by (intro divide_strict_left_mono) simp_all
  then have b: "x < 1 / 2 ^ (k - 1)" by (simp only: xy)
  show ?thesis using a b by (simp only: p1 p2)
qed

lemma expo_bounds:
  assumes "0 < x"
  shows "pow2 (expo x) \<le> x" and "x < pow2 (expo x + 1)"
  using expo_bounds_ge1 [of x] expo_bounds_lt1 [of x] assms by (cases "1 \<le> x"; simp)+

lemma expo_unique:
  assumes "pow2 e \<le> x" and "x < pow2 (e + 1)"
  shows "expo x = e"
proof -
  have x: "0 < x" using assms(1) pow2_pos [of e] by simp
  note b = expo_bounds [OF x]
  have "pow2 e < pow2 (expo x + 1)" using assms(1) b(2) by simp
  then have "e < expo x + 1" by (simp add: pow2_less_iff)
  moreover have "pow2 (expo x) < pow2 (e + 1)" using assms(2) b(1) by simp
  then have "expo x < e + 1" by (simp add: pow2_less_iff)
  ultimately show ?thesis by simp
qed

lemma roundEven_of_int [simp]: "roundEven (of_int n) = n"
  by (simp add: roundEven_def)

lemma roundEven_error: "\<bar>of_int (roundEven y) - y\<bar> \<le> 1 / 2"
  unfolding roundEven_def Let_def by (auto simp: abs_le_iff)

lemma roundEven_nonneg: "0 \<le> y \<Longrightarrow> 0 \<le> roundEven y"
  unfolding roundEven_def Let_def by auto

lemma roundEven_nonpos: "y \<le> 0 \<Longrightarrow> roundEven y \<le> 0"
  unfolding roundEven_def Let_def by auto

lemma fl_0 [simp]: "fl 0 = 0"
  by (simp add: fl_def)

lemma fl_nonneg: "0 \<le> x \<Longrightarrow> 0 \<le> fl x"
  unfolding fl_def Let_def
  by (auto intro!: mult_nonneg_nonneg roundEven_nonneg divide_nonneg_pos simp: pow2_pos less_imp_le)

lemma fl_nonpos: "x \<le> 0 \<Longrightarrow> fl x \<le> 0"
  unfolding fl_def Let_def
  by (auto intro!: mult_nonpos_nonneg roundEven_nonpos divide_nonpos_pos simp: pow2_pos less_imp_le)

lemma fl_quantum:
  assumes "x \<noteq> 0"
  shows "\<bar>fl x - x\<bar> \<le> pow2 (max (expo \<bar>x\<bar>) (- 1022) - 52) / 2"
proof -
  define u where "u = pow2 (max (expo \<bar>x\<bar>) (- 1022) - 52)"
  have u: "0 < u" by (simp add: u_def pow2_pos)
  have "fl x = of_int (roundEven (x / u)) * u"
    using assms by (simp add: fl_def Let_def u_def)
  then have "fl x - x = (of_int (roundEven (x / u)) - x / u) * u"
    using u by (simp add: field_simps)
  then have "\<bar>fl x - x\<bar> = \<bar>of_int (roundEven (x / u)) - x / u\<bar> * u"
    using u by (simp add: abs_mult)
  also have "\<dots> \<le> 1 / 2 * u"
    using u roundEven_error [of "x / u"] by (intro mult_right_mono) simp_all
  finally show ?thesis by (simp add: u_def)
qed

lemma fl_error: "\<bar>fl x - x\<bar> \<le> eps64 * \<bar>x\<bar> + eta64"
proof (cases "x = 0")
  case True
  then show ?thesis by (simp add: eps64_def eta64_def)
next
  case False
  then have ax: "0 < \<bar>x\<bar>" by simp
  note q = fl_quantum [OF False]
  show ?thesis
  proof (cases "- 1022 \<le> expo \<bar>x\<bar>")
    case True
    then have "max (expo \<bar>x\<bar>) (- 1022) - 52 = expo \<bar>x\<bar> + (- 52)" by simp
    then have "pow2 (max (expo \<bar>x\<bar>) (- 1022) - 52) = pow2 (expo \<bar>x\<bar>) * pow2 (- 52)"
      by (simp only: pow2_add)
    also have "\<dots> \<le> \<bar>x\<bar> * pow2 (- 52)"
      using expo_bounds(1) [OF ax] pow2_pos [of "- 52"] by (intro mult_right_mono) simp_all
    finally have "pow2 (max (expo \<bar>x\<bar>) (- 1022) - 52) / 2 \<le> \<bar>x\<bar> * pow2 (- 52) / 2"
      by simp
    also have "\<dots> = eps64 * \<bar>x\<bar>" by (simp add: pow2_def eps64_def)
    finally show ?thesis using q by (simp add: eta64_def)
  next
    case False
    then have "max (expo \<bar>x\<bar>) (- 1022) - 52 = - 1074" by simp
    then have "pow2 (max (expo \<bar>x\<bar>) (- 1022) - 52) / 2 = eta64"
      by (simp add: pow2_def eta64_def)
    then show ?thesis using q by (simp add: eps64_def)
  qed
qed

lemma approx_refl: "approx 0 A A"
  by (simp add: approx_def)

lemma approx_mono: "approx k a A \<Longrightarrow> k \<le> n \<Longrightarrow> approx n a A"
proof -
  assume a: "approx k a A" and "k \<le> n"
  have "0 \<le> eps64 * \<bar>A\<bar> + eta64" by (simp add: eps64_def eta64_def)
  then have "real k * (eps64 * \<bar>A\<bar> + eta64) \<le> real n * (eps64 * \<bar>A\<bar> + eta64)"
    using \<open>k \<le> n\<close> by (intro mult_right_mono) simp_all
  then show ?thesis using a by (simp add: approx_def)
qed

lemma approx_fl:
  assumes "approx k a A" and "k \<le> 1000"
  shows "approx (k + 2) (fl a) A"
proof -
  define B where "B = eps64 * \<bar>A\<bar> + eta64"
  have B0: "0 \<le> B" by (simp add: B_def eps64_def eta64_def)
  have aA: "\<bar>a - A\<bar> \<le> real k * B" using assms(1) by (simp add: approx_def B_def)
  have ke: "real k * eps64 \<le> 1"
  proof -
    have "real k \<le> 1000" using assms(2) by simp
    then have "real k * eps64 \<le> 1000 * eps64"
      by (intro mult_right_mono) (simp_all add: eps64_def)
    also have "\<dots> \<le> 1" by (simp add: eps64_def)
    finally show ?thesis .
  qed
  have e1: "eps64 \<le> 1" and e0: "0 \<le> eps64" by (simp_all add: eps64_def)
  have "\<bar>a\<bar> \<le> \<bar>A\<bar> + real k * B" using aA by linarith
  then have "eps64 * \<bar>a\<bar> \<le> eps64 * (\<bar>A\<bar> + real k * B)"
    using e0 by (intro mult_left_mono)
  also have "\<dots> = eps64 * \<bar>A\<bar> + (real k * eps64) * B" by (simp add: algebra_simps)
  also have "\<dots> \<le> eps64 * \<bar>A\<bar> + 1 * B"
    using ke B0 by (intro add_left_mono mult_right_mono)
  finally have ea: "eps64 * \<bar>a\<bar> \<le> eps64 * \<bar>A\<bar> + B" by simp
  have eA: "eps64 * \<bar>A\<bar> + eta64 = B" by (simp add: B_def)
  have "\<bar>fl a - A\<bar> \<le> \<bar>fl a - a\<bar> + \<bar>a - A\<bar>" by linarith
  also have "\<dots> \<le> (eps64 * \<bar>a\<bar> + eta64) + real k * B"
    using fl_error [of a] aA by linarith
  also have "\<dots> \<le> (eps64 * \<bar>A\<bar> + B + eta64) + real k * B" using ea by linarith
  also have "\<dots> = real (k + 2) * B" using eA by (simp add: algebra_simps)
  finally show ?thesis by (simp add: approx_def B_def)
qed

lemma approx_scale:
  assumes "approx k a A" and "\<bar>c\<bar> \<le> real n" and "1 \<le> n"
  shows "approx (k * n) (c * a) (c * A)"
proof -
  have eta0: "0 \<le> eta64" by (simp add: eta64_def)
  have k0: "0 \<le> real k" by simp
  have "\<bar>c * a - c * A\<bar> = \<bar>c\<bar> * \<bar>a - A\<bar>"
    by (simp add: abs_mult right_diff_distrib [symmetric])
  also have "\<dots> \<le> \<bar>c\<bar> * (real k * (eps64 * \<bar>A\<bar> + eta64))"
    using assms(1) by (intro mult_left_mono) (simp_all add: approx_def)
  also have "\<dots> = real k * (eps64 * \<bar>c * A\<bar>) + real k * (\<bar>c\<bar> * eta64)"
    by (simp add: abs_mult algebra_simps)
  also have "\<dots> \<le> real (k * n) * (eps64 * \<bar>c * A\<bar>) + real (k * n) * eta64"
  proof (intro add_mono)
    have "k * 1 \<le> k * n" using assms(3) by (intro mult_le_mono2)
    then have "real k \<le> real (k * n)" by (simp del: of_nat_mult)
    then show "real k * (eps64 * \<bar>c * A\<bar>) \<le> real (k * n) * (eps64 * \<bar>c * A\<bar>)"
      by (intro mult_right_mono) (simp_all add: eps64_def)
    have "real k * (\<bar>c\<bar> * eta64) \<le> real k * (real n * eta64)"
      using assms(2) eta0 by (intro mult_left_mono mult_right_mono) simp_all
    then show "real k * (\<bar>c\<bar> * eta64) \<le> real (k * n) * eta64" by (simp add: algebra_simps)
  qed
  finally show ?thesis by (simp add: approx_def algebra_simps)
qed

lemma approx_shrink:
  assumes "approx k a A" and "\<bar>c\<bar> \<le> 1"
  shows "approx k (c * a) (c * A)"
  using approx_scale [OF assms(1), of c 1] assms(2) by simp

lemma fl_of_int:
  assumes "\<bar>n\<bar> < 2 ^ 53"
  shows "fl (of_int n) = of_int n"
proof (cases "n = 0")
  case True
  then show ?thesis by simp
next
  case False
  define x :: real where "x = of_int n"
  have x0: "x \<noteq> 0" using False by (simp add: x_def)
  have ax1: "1 \<le> \<bar>x\<bar>"
  proof -
    have "1 \<le> \<bar>n\<bar>" using False by simp
    then have "(1::real) \<le> of_int \<bar>n\<bar>" by (simp only: of_int_1_le_iff)
    then show ?thesis by (simp add: x_def)
  qed
  have ax2: "\<bar>x\<bar> < 2 ^ 53"
  proof -
    have "(of_int \<bar>n\<bar> :: real) < of_int (2 ^ 53)" using assms by (simp only: of_int_less_iff)
    then show ?thesis by (simp add: x_def)
  qed
  define e where "e = expo \<bar>x\<bar>"
  have ax: "0 < \<bar>x\<bar>" using x0 by simp
  have lo: "pow2 e \<le> \<bar>x\<bar>" and hi: "\<bar>x\<bar> < pow2 (e + 1)"
    using expo_bounds [OF ax] by (simp_all add: e_def)
  have "pow2 0 < pow2 (e + 1)" using ax1 hi by (simp add: pow2_def)
  then have e0: "0 \<le> e" by (simp add: pow2_less_iff)
  have "pow2 e < pow2 53" using lo ax2 by (simp add: pow2_def)
  then have e52: "e \<le> 52" by (simp add: pow2_less_iff)
  define j where "j = nat (52 - e)"
  have ej: "e - 52 = - int j" using e52 by (simp add: j_def)
  have u: "pow2 (max e (- 1022) - 52) = 1 / 2 ^ j"
  proof -
    have "max e (- 1022) - 52 = - int j" using e0 ej by simp
    then show ?thesis by (cases "j = 0") (simp_all add: pow2_def)
  qed
  have "x / (1 / 2 ^ j) = of_int (n * 2 ^ j)" by (simp add: x_def)
  then have "roundEven (x / (1 / 2 ^ j)) = n * 2 ^ j" by (simp only: roundEven_of_int)
  then have "fl x = of_int (n * 2 ^ j) * (1 / 2 ^ j)"
    using x0 by (simp add: fl_def Let_def e_def [symmetric] u)
  then show ?thesis by (simp add: x_def)
qed

lemma fl_of_nat: "n < 2 ^ 53 \<Longrightarrow> fl (real n) = real n"
  using fl_of_int [of "int n"] by simp

text \<open>Unfolding these evaluates the rounded operations on numerals.\<close>

lemmas fl_eval = fl_def expo_def roundEven_def pow2_def Let_def compute_floorlog
  add64_def sub64_def mul64_def div64_def

subsection \<open>Loops as folds, rows of the grid\<close>

lemma forLoop_fold: "forLoop i n body s = fold body [i..<n] s"
proof (induction i n body s rule: forLoop.induct)
  case (1 i n body s)
  show ?case
  proof (cases "i < n")
    case True
    then show ?thesis
      using 1 by (subst forLoop.simps) (simp add: upt_rec [of i n])
  next
    case False
    then show ?thesis by (subst forLoop.simps) simp
  qed
qed

lemma fold_push: "fold (\<lambda>y acc. acc @ [f y]) ys acc0 = acc0 @ map f ys"
  by (induction ys arbitrary: acc0) auto

lemma assemble_rows:
  "assemble W H result = map (\<lambda>y. slice (y * W) ((y + 1) * W) result) [0..<H]"
  by (simp add: assemble_def forLoop_fold fold_push)

lemma slice_row_replicate:
  assumes "y < H"
  shows "slice (y * W) ((y + 1) * W) (replicate (W * H) c) = replicate W c"
proof -
  from assms have "Suc y \<le> H" by simp
  then have "W * Suc y \<le> W * H" by (rule mult_le_mono2)
  then have "W \<le> W * H - y * W" by (simp add: mult.commute)
  then show ?thesis by (simp add: slice_def min_def)
qed

lemma assemble_replicate: "assemble W H (replicate (W * H) c) = replicate H (replicate W c)"
proof -
  have "map (\<lambda>y. slice (y * W) ((y + 1) * W) (replicate (W * H) c)) [0..<H] =
        map (\<lambda>y. replicate W c) [0..<H]"
    using slice_row_replicate [of _ H W c] by (intro map_cong) auto
  then show ?thesis by (simp add: assemble_rows map_replicate_const)
qed

subsection \<open>Simple threshold\<close>

text \<open>
  C1. With the simple-threshold algorithm (identifier \<open>threshold\<close>) the flat result has one
  cell per luminance value, and a cell is 1 exactly when its luminance is strictly below
  \<open>threshold\<close> (and 0 otherwise), for every luminance field and every threshold. On a
  uniform field of luminance 128 with threshold 128 every cell is 0, and every cell is 1
  when \<open>invertColors\<close> is set; for the 4 by 4 grid this is the all-0 (all-1) grid.
\<close>

theorem simple_threshold_rule:
  assumes "algorithm p = ''threshold''"
  shows "length (algorithmResult p gray) = length gray \<and>
     (\<forall>i < length gray. (algorithmResult p gray ! i = 1) = (gray ! i < threshold p)) \<and>
     (\<forall>i < length gray.
        algorithmResult p gray ! i = (if gray ! i < threshold p then 1 else 0)) \<and>
     (threshold p = 128 \<longrightarrow>
        invertStep (invertColors p) (algorithmResult p (replicate n 128)) =
          replicate n (if invertColors p then 1 else 0)) \<and>
     (threshold p = 128 \<and> gridWidth p = 4 \<and> gridHeight p = 4 \<longrightarrow>
        patternOfGray p (replicate 16 128) =
          replicate 4 (replicate 4 (if invertColors p then 1 else 0)))"
proof -
  have alg: "algorithmResult p g = thresholdMap (threshold p) g" for g
    using assms by (simp add: algorithmResult_def)
  have uni: "threshold p = 128 \<Longrightarrow>
      invertStep (invertColors p) (algorithmResult p (replicate m 128)) =
        replicate m (if invertColors p then 1 else 0)" for m
    by (simp add: alg thresholdMap_def invertStep_def)
  have grid: "patternOfGray p (replicate 16 128) =
      replicate 4 (replicate 4 (if invertColors p then 1 else 0))"
    if "threshold p = 128" "gridWidth p = 4" "gridHeight p = 4"
    using assemble_replicate [of 4 4 "if invertColors p then 1 else 0"]
      uni [OF that(1), of 16] that
    by (simp add: patternOfGray_def)
  show ?thesis
    using uni grid by (simp add: alg thresholdMap_def)
qed

theorem simple_threshold_rule_witness:
  "algorithm (initialParams\<lparr>gridWidth := 4, gridHeight := 4\<rparr>) = ''threshold'' \<and>
   patternOfGray (initialParams\<lparr>gridWidth := 4, gridHeight := 4\<rparr>) (replicate 16 128) =
     [[0, 0, 0, 0], [0, 0, 0, 0], [0, 0, 0, 0], [0, 0, 0, 0]] \<and>
   patternOfGray (initialParams\<lparr>gridWidth := 4, gridHeight := 4, invertColors := True\<rparr>)
       (replicate 16 128) =
     [[1, 1, 1, 1], [1, 1, 1, 1], [1, 1, 1, 1], [1, 1, 1, 1]]"
proof -
  let ?p = "initialParams\<lparr>gridWidth := 4, gridHeight := 4\<rparr>"
  let ?q = "initialParams\<lparr>gridWidth := 4, gridHeight := 4, invertColors := True\<rparr>"
  have h: "algorithm ?p = ''threshold''" and h': "algorithm ?q = ''threshold''"
    by (simp_all add: initialParams_def)
  show ?thesis
    using h simple_threshold_rule [OF h, of "[]" 0] simple_threshold_rule [OF h', of "[]" 0]
    by (simp add: initialParams_def numeral_eq_Suc)
qed

subsection \<open>Tone adjustment\<close>

lemma toneLoop_spec:
  assumes "i mod 4 = 0" and "length data mod 4 = 0"
  shows "length (toneLoop c b i data) = length data \<and>
     (\<forall>k<length data. toneLoop c b i data ! k =
        (if i \<le> k \<and> k mod 4 \<noteq> 3 then toUint8Clamp (toneChannel c b (data ! k)) else data ! k))"
  using assms
proof (induction c b i data rule: toneLoop.induct)
  case (1 c b i data)
  show ?case
  proof (cases "i < length data")
    case False
    then show ?thesis by (subst toneLoop.simps, subst toneLoop.simps) simp
  next
    case True
    define d1 where "d1 = data[i := toUint8Clamp (toneChannel c b (data ! i))]"
    define d2 where "d2 = d1[i + 1 := toUint8Clamp (toneChannel c b (d1 ! (i + 1)))]"
    define d3 where "d3 = d2[i + 2 := toUint8Clamp (toneChannel c b (d2 ! (i + 2)))]"
    have step: "toneLoop c b i data = toneLoop c b (i + 4) d3"
      using True by (subst toneLoop.simps) (simp add: d1_def d2_def d3_def Let_def)
    have len3: "length d3 = length data" by (simp add: d1_def d2_def d3_def)
    have in_range: "i + 3 < length data"
      using True "1.prems" by presburger
    have d3_nth: "d3 ! k = (if k = i \<or> k = i + 1 \<or> k = i + 2 then toUint8Clamp (toneChannel c b (data ! k)) else data ! k)"
      if "k < length data" for k
      using that in_range by (auto simp: d1_def d2_def d3_def nth_list_update)
    have ih: "length (toneLoop c b (i + 4) d3) = length d3 \<and>
       (\<forall>k<length d3. toneLoop c b (i + 4) d3 ! k =
          (if i + 4 \<le> k \<and> k mod 4 \<noteq> 3 then toUint8Clamp (toneChannel c b (d3 ! k)) else d3 ! k))"
    proof (rule "1.IH" [OF True d1_def d2_def d3_def])
      show "(i + 4) mod 4 = 0" using "1.prems"(1) by presburger
      show "length d3 mod 4 = 0" using "1.prems"(2) len3 by simp
    qed
    have "toneLoop c b (i + 4) d3 ! k =
        (if i \<le> k \<and> k mod 4 \<noteq> 3 then toUint8Clamp (toneChannel c b (data ! k)) else data ! k)"
      if k: "k < length data" for k
    proof -
      have a: "toneLoop c b (i + 4) d3 ! k =
          (if i + 4 \<le> k \<and> k mod 4 \<noteq> 3 then toUint8Clamp (toneChannel c b (d3 ! k)) else d3 ! k)"
        using ih k len3 by simp
      have b: "(k = i \<or> k = i + 1 \<or> k = i + 2) = (i \<le> k \<and> k < i + 4 \<and> k mod 4 \<noteq> 3)"
        using "1.prems"(1) by presburger
      show ?thesis
        unfolding a d3_nth [OF k] b by auto
    qed
    then show ?thesis using ih len3 step by simp
  qed
qed

lemma fl_numeral_small [simp]: "fl 1 = 1" "fl 128 = 128" "fl 100 = 100"
  using fl_of_int [of 1] fl_of_int [of 128] fl_of_int [of 100] by simp_all

lemma byteValue_nat: "\<exists>n<256. byteValue v = real n \<and> v = of_nat n"
proof -
  have "unat v < 2 ^ 8" using unsigned_less [of v] by simp
  then have "unat v < 256" by simp
  moreover have "v = of_nat (unat v)" by simp
  ultimately show ?thesis unfolding byteValue_def by blast
qed

lemma byteValue_range: "0 \<le> byteValue v \<and> byteValue v \<le> 255"
proof -
  obtain n where "n < 256" "byteValue v = real n" using byteValue_nat by blast
  then show ?thesis by simp
qed

lemma toneChannel_identity: "toneChannel 1 0 v = byteValue v"
proof -
  obtain n where n: "n < 256" and v: "byteValue v = real n" using byteValue_nat by blast
  have "fl (of_int (int n - 128)) = of_int (int n - 128)" using n by (intro fl_of_int) simp
  then have g: "fl (real n - 128) = real n - 128" by simp
  have "fl (of_int (int n)) = of_int (int n)" using n by (intro fl_of_int) simp
  then have f: "fl (real n) = real n" by simp
  have a: "sub64 (real n) 128 = real n - 128"
    unfolding sub64_def by (rule g)
  have b: "mul64 (real n - 128) 1 = real n - 128"
    unfolding mul64_def mult_1_right by (rule g)
  have c: "add64 (real n - 128) 128 = real n"
    unfolding add64_def using f by simp
  have d: "add64 (real n) 0 = real n"
    unfolding add64_def using f by simp
  show ?thesis
    unfolding toneChannel_def v a b c d using n by simp
qed

lemma toUint8Clamp_byteValue: "toUint8Clamp (byteValue v) = v"
proof -
  obtain n where n: "n < 256" and v: "byteValue v = real n" and w: "v = of_nat n"
    using byteValue_nat by blast
  have "roundEven (of_int (int n)) = int n" by (rule roundEven_of_int)
  then have r: "roundEven (real n) = int n" by simp
  have m: "min 255 (max 0 (real n)) = real n" using n by simp
  show ?thesis
    unfolding toUint8Clamp_def v m r using w by simp
qed

lemma roundEven_mono_int: "of_int n \<le> y \<Longrightarrow> n \<le> roundEven y"
  unfolding roundEven_def Let_def by (auto simp: le_floor_iff) linarith+

lemma roundEven_le_int: "y \<le> of_int n \<Longrightarrow> roundEven y \<le> n"
  unfolding roundEven_def Let_def by (auto simp: floor_le_iff)

lemma unat_toUint8Clamp: "unat (toUint8Clamp x) = nat (roundEven (min 255 (max 0 x)))"
proof -
  define r where "r = roundEven (min 255 (max 0 x))"
  have "0 \<le> r" unfolding r_def using roundEven_mono_int [of 0 "min 255 (max 0 x)"] by simp
  moreover have "r \<le> 255"
    unfolding r_def using roundEven_le_int [of "min 255 (max 0 x)" 255] by simp
  ultimately have "unat (word_of_int r :: 8 word) = nat r"
    by (simp add: unat_eq_nat_uint uint_word_of_int take_bit_int_eq_self)
  then show ?thesis by (simp add: toUint8Clamp_def r_def)
qed

lemma toneChannel_clamped: "min 255 (max 0 (toneChannel c b v)) = toneChannel c b v"
  by (simp add: toneChannel_def)

lemma tone_settings_identity:
  "div64 100 100 = 1" "mul64 (sub64 100 100) z = 0"
  by (simp_all add: div64_def mul64_def sub64_def)

lemma applyContrastBrightness_cells:
  assumes "length data mod 4 = 0"
  shows "length (applyContrastBrightness c b data) = length data \<and>
     (\<forall>k<length data. applyContrastBrightness c b data ! k =
        (if k mod 4 \<noteq> 3
         then toUint8Clamp (toneChannel (div64 c 100) (mul64 (sub64 b 100) (fl 2.55)) (data ! k))
         else data ! k))"
  using toneLoop_spec [of 0 data "div64 c 100" "mul64 (sub64 b 100) (fl 2.55)"] assms
  by (simp add: applyContrastBrightness_def)

lemma applyContrastBrightness_identity:
  assumes "length data mod 4 = 0"
  shows "applyContrastBrightness 100 100 data = data"
proof (rule nth_equalityI)
  show "length (applyContrastBrightness 100 100 data) = length data"
    using applyContrastBrightness_cells [OF assms] by simp
next
  fix k assume "k < length (applyContrastBrightness 100 100 data)"
  then have k: "k < length data" using applyContrastBrightness_cells [OF assms] by simp
  show "applyContrastBrightness 100 100 data ! k = data ! k"
    using applyContrastBrightness_cells [OF assms, of 100 100] k
    by (simp add: tone_settings_identity toneChannel_identity toUint8Clamp_byteValue)
qed

text \<open>
  C2 as stated fails: the buffer is the canvas's byte array, so what a channel holds
  after the adjustment is not the value of the formula but the byte nearest to it.
  At contrast 110 and brightness 100 the pixel \<open>(100, 50, 200)\<close> becomes
  \<open>(97, 42, 207)\<close>, while the formula gives \<open>97.2\<close>, \<open>42.2\<close> and \<open>207.2\<close>.
\<close>

theorem tone_adjuster_counterexample:
  "applyContrastBrightness 110 100 [100, 50, 200, 255] = [97, 42, 207, 255] \<and>
   min 255 (max 0 ((100 - 128) * (110 / 100) + 128 + (100 - 100) * 2.55)) = (486 / 5 :: real) \<and>
   min 255 (max 0 ((50 - 128) * (110 / 100) + 128 + (100 - 100) * 2.55)) = (211 / 5 :: real) \<and>
   min 255 (max 0 ((200 - 128) * (110 / 100) + 128 + (100 - 100) * 2.55)) = (1036 / 5 :: real)"
proof -
  have "applyContrastBrightness 110 100 [100, 50, 200, 255] = [97, 42, 207, 255]"
    apply (simp add: applyContrastBrightness_def toneLoop.simps Let_def)
    apply (simp add: toneChannel_def byteValue_def toUint8Clamp_def fl_eval)
    done
  then show ?thesis by simp
qed

text \<open>
  C2, amended. On a buffer of whole RGBA quadruples, \<open>applyContrastBrightness\<close> keeps the
  length, leaves every fourth entry (alpha) as it is, and replaces every colour channel
  byte \<open>v\<close>, each on its own, by the byte nearest (a half going to the even byte) to
  \<open>min 255 (max 0 ((v - 128) * (contrast / 100) + 128 + (brightness - 100) * 2.55))\<close>,
  the formula being evaluated in double precision from left to right; this for every
  contrast and brightness. With contrast 100 and brightness 100 every buffer comes back
  unchanged.
\<close>

theorem tone_adjuster_rule:
  assumes "length data mod 4 = 0"
  shows "length (applyContrastBrightness con bri data) = length data \<and>
     (\<forall>k<length data.
        (k mod 4 = 3 \<longrightarrow> applyContrastBrightness con bri data ! k = data ! k) \<and>
        (k mod 4 \<noteq> 3 \<longrightarrow>
           unat (applyContrastBrightness con bri data ! k) =
             nat (roundEven (min 255 (max 0
               (add64 (add64 (mul64 (sub64 (real (unat (data ! k))) 128) (div64 con 100)) 128)
                      (mul64 (sub64 bri 100) (fl 2.55)))))))) \<and>
     applyContrastBrightness 100 100 data = data"
proof -
  note spec = applyContrastBrightness_cells [OF assms]
  have chan: "unat (applyContrastBrightness con bri data ! k) =
             nat (roundEven (min 255 (max 0
               (add64 (add64 (mul64 (sub64 (real (unat (data ! k))) 128) (div64 con 100)) 128)
                      (mul64 (sub64 bri 100) (fl 2.55))))))"
    if "k < length data" "k mod 4 \<noteq> 3" for k
  proof -
    have "applyContrastBrightness con bri data ! k =
        toUint8Clamp (toneChannel (div64 con 100) (mul64 (sub64 bri 100) (fl 2.55)) (data ! k))"
      using spec [of con bri] that by simp
    then show ?thesis
      by (simp only: unat_toUint8Clamp toneChannel_clamped) (simp add: toneChannel_def byteValue_def)
  qed
  show ?thesis
    using spec [of con bri] applyContrastBrightness_identity [OF assms] chan by simp
qed

theorem tone_adjuster_rule_witness:
  "length [100, 50, 200, 255 :: 8 word] mod 4 = 0 \<and>
   unat (applyContrastBrightness 110 100 [100, 50, 200, 255] ! 0) = 97 \<and>
   applyContrastBrightness 110 100 [100, 50, 200, 255] ! 3 = 255 \<and>
   applyContrastBrightness 100 100 [100, 50, 200, 255] = [100, 50, 200, 255]"
proof -
  have h: "length [100, 50, 200, 255 :: 8 word] mod 4 = 0" by simp
  have v: "nat (roundEven (min 255 (max 0
               (add64 (add64 (mul64 (sub64 (real (unat (100 :: 8 word))) 128) (div64 110 100)) 128)
                      (mul64 (sub64 100 100) (fl 2.55)))))) = 97"
    by (simp add: fl_eval)
  note r = tone_adjuster_rule [OF h, of 110 100]
  note cells = r [THEN conjunct2, THEN conjunct1]
  show ?thesis
    using cells [THEN spec, of 0] cells [THEN spec, of 3] r [THEN conjunct2, THEN conjunct2] v
    by simp
qed

subsection \<open>Unknown algorithm identifiers\<close>

text \<open>
  C9 as stated fails: with the identifier \<open>bogus\<close>, which names no algorithm, the run
  publishes a grid, and it is the grid of the simple threshold.
\<close>

theorem unknown_algorithm_counterexample:
  "generatePattern (initialParams\<lparr>gridWidth := 2, gridHeight := 2, algorithm := ''bogus''\<rparr>)
     (Some [0, 0, 0, 255, 255, 255, 255, 255, 255, 255, 255, 255, 0, 0, 0, 255]) =
     Some [[1, 0], [0, 1]] \<and>
   generatePattern (initialParams\<lparr>gridWidth := 2, gridHeight := 2, algorithm := ''threshold''\<rparr>)
     (Some [0, 0, 0, 255, 255, 255, 255, 255, 255, 255, 255, 255, 0, 0, 0, 255]) =
     Some [[1, 0], [0, 1]]"
proof -
  let ?pixels = "[0, 0, 0, 255, 255, 255, 255, 255, 255, 255, 255, 255, 0, 0, 0, 255] :: 8 word list"
  have tone: "applyContrastBrightness 100 100 ?pixels = ?pixels"
    by (rule applyContrastBrightness_identity) simp
  have gray: "grayLoop ?pixels 0 [] = [0, 255, 255, 0]"
    apply (simp add: grayLoop.simps getGrayscale_def byteValue_def)
    apply (simp add: fl_eval)
    done
  show ?thesis
    by (simp add: generatePattern_def patternOfGray_def algorithmResult_def initialParams_def
        tone gray thresholdMap_def invertStep_def assemble_def forLoop.simps slice_def)
qed

text \<open>
  C9, amended. An identifier that is none of \<open>otsu\<close>, \<open>floydSteinberg\<close>, \<open>atkinson\<close>,
  \<open>ordered\<close>, \<open>sobel\<close>, \<open>adaptive\<close> takes the \<^verbatim>\<open>default\<close> branch: the result is the
  simple threshold at the current \<open>threshold\<close>, the run gives the same grid as with the
  identifier \<open>threshold\<close>, and whenever an image is loaded a grid is published. There is
  no failure result for an unknown identifier.
\<close>

theorem unknown_algorithm_is_simple_threshold:
  assumes "algorithm p \<notin>
     {''otsu'', ''floydSteinberg'', ''atkinson'', ''ordered'', ''sobel'', ''adaptive''}"
  shows "algorithmResult p gray = thresholdMap (threshold p) gray \<and>
     generatePattern p (Some pixels) =
       generatePattern (p\<lparr>algorithm := ''threshold''\<rparr>) (Some pixels) \<and>
     (\<exists>grid. generatePattern p (Some pixels) = Some grid)"
  using assms by (simp add: algorithmResult_def generatePattern_def patternOfGray_def Let_def)

theorem unknown_algorithm_is_simple_threshold_witness:
  "algorithm (initialParams\<lparr>algorithm := ''bogus''\<rparr>) \<notin>
     {''otsu'', ''floydSteinberg'', ''atkinson'', ''ordered'', ''sobel'', ''adaptive''} \<and>
   algorithmResult (initialParams\<lparr>algorithm := ''bogus''\<rparr>) [0, 255, 127, 128] = [1, 0, 1, 0]"
proof -
  have h: "algorithm (initialParams\<lparr>algorithm := ''bogus''\<rparr>) \<notin>
     {''otsu'', ''floydSteinberg'', ''atkinson'', ''ordered'', ''sobel'', ''adaptive''}"
    by simp
  show ?thesis
    using h unknown_algorithm_is_simple_threshold [OF h, of "[0, 255, 127, 128]" "[]"]
    by (simp add: thresholdMap_def initialParams_def)
qed

subsection \<open>CSV export\<close>

lemma joinWith_Cons: "rows \<noteq> [] \<Longrightarrow> joinWith sep (r # rows) = r @ sep @ joinWith sep rows"
  by (cases rows) simp_all

lemma length_joinWith:
  assumes "\<forall>r\<in>set rows. length r = L" and "rows \<noteq> []"
  shows "length (joinWith [s] rows) + 1 = length rows * (L + 1)"
  using assms
proof (induction rows)
  case Nil
  then show ?case by simp
next
  case (Cons r rows)
  show ?case
  proof (cases "rows = []")
    case True
    with Cons.prems show ?thesis by simp
  next
    case False
    with Cons show ?thesis by (simp add: joinWith_Cons)
  qed
qed

lemma joinWith_nth_piece:
  assumes "\<forall>r\<in>set rows. length r = L" and "y < length rows" and "j < L"
  shows "joinWith [s] rows ! (y * (L + 1) + j) = rows ! y ! j"
  using assms
proof (induction rows arbitrary: y)
  case Nil
  then show ?case by simp
next
  case (Cons r rows)
  show ?case
  proof (cases "rows = []")
    case True
    with Cons.prems show ?thesis by simp
  next
    case False
    note ne = this
    show ?thesis
    proof (cases y)
      case 0
      with Cons.prems ne show ?thesis by (simp add: joinWith_Cons nth_append)
    next
      case (Suc y')
      have len: "length r = L" using Cons.prems by simp
      have ih: "joinWith [s] rows ! (y' * (L + 1) + j) = rows ! y' ! j"
        using Cons.IH [of y'] Cons.prems Suc by simp
      have idx: "y * (L + 1) + j = length (r @ [s]) + (y' * (L + 1) + j)"
        using Suc len by simp
      have "joinWith [s] (r # rows) = (r @ [s]) @ joinWith [s] rows"
        using ne by (simp add: joinWith_Cons)
      then have "joinWith [s] (r # rows) ! (y * (L + 1) + j) = joinWith [s] rows ! (y' * (L + 1) + j)"
        unfolding idx by (simp only: nth_append_length_plus)
      with ih Suc show ?thesis by simp
    qed
  qed
qed

lemma joinWith_nth_sep:
  assumes "\<forall>r\<in>set rows. length r = L" and "y + 1 < length rows"
  shows "joinWith [s] rows ! (y * (L + 1) + L) = s"
  using assms
proof (induction rows arbitrary: y)
  case Nil
  then show ?case by simp
next
  case (Cons r rows)
  from Cons.prems have ne: "rows \<noteq> []" by auto
  have len: "length r = L" using Cons.prems by simp
  have app: "joinWith [s] (r # rows) = (r @ [s]) @ joinWith [s] rows"
    using ne by (simp add: joinWith_Cons)
  show ?case
  proof (cases y)
    case 0
    then show ?thesis using len by (simp add: joinWith_Cons [OF ne] nth_append)
  next
    case (Suc y')
    have ih: "joinWith [s] rows ! (y' * (L + 1) + L) = s"
      using Cons.IH [of y'] Cons.prems Suc by simp
    have idx: "y * (L + 1) + L = length (r @ [s]) + (y' * (L + 1) + L)"
      using Suc len by simp
    show ?thesis
      unfolding app idx by (simp only: nth_append_length_plus ih)
  qed
qed

lemma digitChar_value: "d < 10 \<Longrightarrow> of_char (digitChar d) - 48 = d"
  by (simp add: digitChar_def)

lemma digitsValue_snoc: "digitsValue (s @ [c]) = 10 * digitsValue s + (of_char c - 48)"
  by (simp add: digitsValue_def)

lemma digitsValue_numberString: "digitsValue (numberString n) = n"
proof (induction n rule: numberString.induct)
  case (1 n)
  show ?case
  proof (cases "n < 10")
    case True
    then show ?thesis
      by (subst numberString.simps) (simp add: digitsValue_def digitChar_value)
  next
    case False
    then have "digitsValue (numberString (n div 10)) = n div 10" using 1 by simp
    with False show ?thesis
      by (subst numberString.simps) (simp add: digitsValue_snoc digitChar_value)
  qed
qed

text \<open>
  C10 as stated fails on the file name: for a 2 by 2 grid the download is named
  \<open>crochet_pattern_2x2.csv\<close>, not \<open>pattern_2x2\<close>.
\<close>

theorem downloadCSV_name_counterexample:
  "downloadCSV 2 2 [[1, 0], [0, 1]] = Some (''crochet_pattern_2x2.csv'', ''X,O\<newline>O,X'') \<and>
   downloadCSV 2 2 [[1, 0], [0, 1]] \<noteq> Some (''pattern_2x2'', ''X,O\<newline>O,X'')"
  by code_simp

text \<open>
  C10, amended. For a grid with at least one row, all rows of the same positive length
  \<open>n\<close>, the export is the text in which row \<open>y\<close> occupies the positions from
  \<open>y * 2n\<close>: cell \<open>x\<close> of the row at offset \<open>2x\<close>, written \<open>X\<close> for 1 and \<open>O\<close> for
  any other value, a comma after every cell but the last, and a newline after every row
  but the last. The file is named \<open>crochet_pattern_\<close>, the decimal \<open>gridWidth\<close>, \<open>x\<close>,
  the decimal \<open>gridHeight\<close>, \<open>.csv\<close>. With no rows nothing is exported.
\<close>

theorem downloadCSV_export:
  assumes "pattern \<noteq> []" and "\<forall>row\<in>set pattern. length row = n" and "0 < n"
  shows "\<exists>csv. downloadCSV W H pattern =
            Some (''crochet_pattern_'' @ numberString W @ ''x'' @ numberString H @ ''.csv'', csv) \<and>
          length csv + 1 = length pattern * (2 * n) \<and>
          (\<forall>y<length pattern. \<forall>x<n.
             csv ! (y * (2 * n) + 2 * x) = (if pattern ! y ! x = 1 then CHR ''X'' else CHR ''O'')) \<and>
          (\<forall>y<length pattern. \<forall>x. x + 1 < n \<longrightarrow> csv ! (y * (2 * n) + 2 * x + 1) = CHR '','') \<and>
          (\<forall>y. y + 1 < length pattern \<longrightarrow> csv ! (y * (2 * n) + (2 * n - 1)) = CHR 0x0A) \<and>
          digitsValue (numberString W) = W \<and> digitsValue (numberString H) = H \<and>
          downloadCSV W H [] = None"
proof -
  define cell :: "int \<Rightarrow> string" where "cell = (\<lambda>c. if c = 1 then ''X'' else ''O'')"
  define line where "line = (\<lambda>row. joinWith '','' (map cell row))"
  define L where "L = 2 * n - 1"
  have L1: "L + 1 = 2 * n" using assms(3) by (simp add: L_def)
  have cells: "\<forall>r\<in>set (map cell row). length r = 1" for row
    by (auto simp: cell_def)
  have line_len: "length (line row) = L" if "row \<in> set pattern" for row
  proof -
    have "length row = n" using that assms(2) by simp
    then have "map cell row \<noteq> []" using assms(3) by auto
    from length_joinWith [OF cells this, of "CHR '',''"] \<open>length row = n\<close>
    show ?thesis by (simp add: line_def L_def)
  qed
  then have lines: "\<forall>r\<in>set (map line pattern). length r = L" by auto
  have line_cell: "line row ! (2 * x) = (if row ! x = 1 then CHR ''X'' else CHR ''O'')"
    if "row \<in> set pattern" "x < n" for row x
  proof -
    have "length row = n" using that assms(2) by simp
    then have "x < length (map cell row)" using that by simp
    from joinWith_nth_piece [OF cells this, of 0 "CHR '',''"]
    have "line row ! (x * (1 + 1) + 0) = map cell row ! x ! 0"
      by (simp only: line_def)
    moreover have "x * (1 + 1) + 0 = 2 * x" by simp
    moreover have "map cell row ! x ! 0 = (if row ! x = 1 then CHR ''X'' else CHR ''O'')"
      using \<open>length row = n\<close> that by (simp add: cell_def)
    ultimately show ?thesis by (simp only:)
  qed
  have line_comma: "line row ! (2 * x + 1) = CHR '',''"
    if "row \<in> set pattern" "x + 1 < n" for row x
  proof -
    have "length row = n" using that assms(2) by simp
    then have "x + 1 < length (map cell row)" using that by simp
    from joinWith_nth_sep [OF cells this, of "CHR '',''"]
    have "line row ! (x * (1 + 1) + 1) = CHR '',''"
      by (simp only: line_def)
    moreover have "x * (1 + 1) + 1 = 2 * x + 1" by simp
    ultimately show ?thesis by (simp only:)
  qed
  define csv where "csv = joinWith [CHR 0x0A] (map line pattern)"
  have csv: "csvText pattern = csv"
    by (simp add: csvText_def csv_def line_def cell_def)
  have ne: "map line pattern \<noteq> []" using assms(1) by simp
  have len: "length csv + 1 = length pattern * (2 * n)"
    using length_joinWith [OF lines ne, of "CHR 0x0A"] by (simp only: csv_def L1 length_map)
  have at: "csv ! (y * (2 * n) + j) = line (pattern ! y) ! j"
    if "y < length pattern" "j < L" for y j
  proof -
    have "y < length (map line pattern)" using that by simp
    from joinWith_nth_piece [OF lines this that(2), of "CHR 0x0A"] that(1)
    show ?thesis by (simp only: csv_def L1 nth_map)
  qed
  have c1: "csv ! (y * (2 * n) + 2 * x) = (if pattern ! y ! x = 1 then CHR ''X'' else CHR ''O'')"
    if "y < length pattern" "x < n" for y x
  proof -
    have "2 * x < L" using that by (simp add: L_def)
    from at [OF that(1) this] line_cell [of "pattern ! y" x] that show ?thesis by simp
  qed
  have c2: "csv ! (y * (2 * n) + 2 * x + 1) = CHR '',''"
    if "y < length pattern" "x + 1 < n" for y x
  proof -
    have "2 * x + 1 < L" using that by (simp add: L_def)
    from at [OF that(1) this] line_comma [of "pattern ! y" x] that show ?thesis
      by (simp add: add.assoc)
  qed
  have c3: "csv ! (y * (2 * n) + (2 * n - 1)) = CHR 0x0A" if "y + 1 < length pattern" for y
  proof -
    have "y + 1 < length (map line pattern)" using that by simp
    from joinWith_nth_sep [OF lines this, of "CHR 0x0A"]
    have "csv ! (y * (L + 1) + L) = CHR 0x0A" by (simp only: csv_def)
    then have "csv ! (y * (2 * n) + L) = CHR 0x0A" by (simp only: L1)
    then show ?thesis by (simp only: L_def)
  qed
  have "downloadCSV W H pattern =
      Some (''crochet_pattern_'' @ numberString W @ ''x'' @ numberString H @ ''.csv'', csv)"
    using assms(1) by (simp add: downloadCSV_def csv)
  moreover have "downloadCSV W H [] = None" by (simp add: downloadCSV_def)
  ultimately show ?thesis
    using len c1 c2 c3 digitsValue_numberString [of W] digitsValue_numberString [of H]
    by blast
qed

theorem downloadCSV_export_witness:
  "[[1, 0], [0, 1]] \<noteq> ([] :: int list list) \<and>
   length [1, 0 :: int] = 2 \<and> length [0, 1 :: int] = 2 \<and> (0::nat) < 2 \<and>
   (\<exists>csv. downloadCSV 2 2 [[1, 0], [0, 1]] = Some (''crochet_pattern_2x2.csv'', csv) \<and>
      length csv = 7 \<and> csv ! 0 = CHR ''X'' \<and> csv ! 1 = CHR '','' \<and> csv ! 3 = CHR 0x0A)"
proof -
  have h1: "[[1, 0], [0, 1]] \<noteq> ([] :: int list list)"
    and h2: "\<forall>row\<in>set [[1, 0], [0, 1 :: int]]. length row = 2"
    and h3: "(0::nat) < 2"
    by simp_all
  have name: "''crochet_pattern_'' @ numberString 2 @ ''x'' @ numberString 2 @ ''.csv'' =
      ''crochet_pattern_2x2.csv''"
    by code_simp
  from downloadCSV_export [OF h1 h2 h3, of 2 2]
  obtain csv where csv: "downloadCSV 2 2 [[1, 0], [0, 1]] = Some (''crochet_pattern_2x2.csv'', csv)"
    and len: "length csv + 1 = 8"
    and cell: "\<forall>y<2. \<forall>x<2. csv ! (y * 4 + 2 * x) =
                 (if [[1, 0], [0, 1 :: int]] ! y ! x = 1 then CHR ''X'' else CHR ''O'')"
    and comma: "\<forall>y<2. \<forall>x. x + 1 < 2 \<longrightarrow> csv ! (y * 4 + 2 * x + 1) = CHR '',''"
    and nl: "\<forall>y. y + 1 < 2 \<longrightarrow> csv ! (y * 4 + 3) = CHR 0x0A"
    unfolding name by auto
  from cell have "csv ! 0 = CHR ''X''" by force
  moreover from comma have "csv ! 1 = CHR '',''" by force
  moreover from nl have "csv ! 3 = CHR 0x0A" by force
  ultimately show ?thesis using csv len by simp
qed

subsection \<open>Cell indices and nested loops\<close>


lemma cell_index_div_mod:
  fixes x y W :: nat
  assumes "x < W"
  shows "(y * W + x) div W = y" and "(y * W + x) mod W = x"
  using assms by simp_all

lemma cell_index_inj:
  fixes x y x' y' W :: nat
  assumes "x < W" and "x' < W" and "y * W + x = y' * W + x'"
  shows "x = x' \<and> y = y'"
proof -
  have "(y * W + x) mod W = (y' * W + x') mod W" and "(y * W + x) div W = (y' * W + x') div W"
    by (simp_all only: assms(3))
  then show ?thesis using assms(1,2) by simp
qed








subsection \<open>Ordered dithering\<close>





subsection \<open>Edge detection\<close>












end
